theory Spec2Isabelle
  imports Complex_Main "HOL-Library.AList" "HOL-Library.Sublist"
begin

section \<open>Python values and built-ins used by the extraction code\<close>

text \<open>
  Strings are lists of 8-bit characters read as code points 0..255 (Latin-1); code points
  above 255 are not represented.  Exceptions are values: a computation that may raise
  returns \<open>exn + 'a\<close>, with \<open>Inl\<close> for the raised exception.  The constructors stand
  for subclasses of Python's \<open>Exception\<close>.
\<close>

datatype exn = IndexError | ValueError | KeyError | TypeError | AttributeError
  | JSONDecodeError | OtherException string

text \<open>
  A float is modelled by the exact rational number that the decimal literal denotes, or one
  of the special values.  Rounding to binary64 is not applied.
\<close>

datatype pyfloat = Finite rat | PosInf | NegInf | NaN

text \<open>\<open>xs[i]\<close> for a literal index \<open>i \<ge> 0\<close>.\<close>

definition py_index :: "'a list \<Rightarrow> nat \<Rightarrow> exn + 'a" where
  "py_index xs i = (if i < length xs then Inr (xs ! i) else Inl IndexError)"

text \<open>\<open>sub in s\<close> on strings: \<open>sub\<close> occurs as a contiguous piece of \<open>s\<close>.\<close>

fun py_in :: "string \<Rightarrow> string \<Rightarrow> bool" where
  "py_in sub [] = (sub = [])"
| "py_in sub (c # cs) = (prefix sub (c # cs) \<or> py_in sub cs)"

text \<open>\<open>s.split(sep)\<close> for a one-character separator: the pieces between the separators.\<close>

fun py_split :: "char \<Rightarrow> string \<Rightarrow> string list" where
  "py_split sep [] = [[]]"
| "py_split sep (c # cs) =
     (if c = sep then [] # py_split sep cs
      else (case py_split sep cs of p # ps \<Rightarrow> (c # p) # ps | [] \<Rightarrow> [[c]]))"

text \<open>\<open>s.replace(c, '')\<close> for a one-character \<open>c\<close>.\<close>

definition py_remove :: "char \<Rightarrow> string \<Rightarrow> string" where
  "py_remove c s = filter (\<lambda>x. x \<noteq> c) s"

text \<open>\<open>str.lower\<close> on code points 0..255: A-Z and the upper-case Latin-1 letters
  (0xC0..0xDE without the multiplication sign 0xD7) move up by 32.\<close>

definition lower_char :: "char \<Rightarrow> char" where
  "lower_char c =
     (let n = (of_char c :: nat)
      in if (65 \<le> n \<and> n \<le> 90) \<or> (192 \<le> n \<and> n \<le> 222 \<and> n \<noteq> 215)
         then char_of (n + 32) else c)"

definition py_lower :: "string \<Rightarrow> string" where
  "py_lower s = map lower_char s"

subsection \<open>The built-in \<open>float\<close> on strings\<close>

definition is_digit :: "char \<Rightarrow> bool" where
  "is_digit c = (48 \<le> (of_char c :: nat) \<and> (of_char c :: nat) \<le> 57)"

definition digit_val :: "char \<Rightarrow> nat" where
  "digit_val c = of_char c - 48"

definition nat_of_digits :: "string \<Rightarrow> nat" where
  "nat_of_digits ds = foldl (\<lambda>a c. 10 * a + digit_val c) 0 ds"

text \<open>White space that \<open>float\<close> strips at both ends: tab, LF, VT, FF, CR, space, and
  the two Latin-1 spaces NEL (0x85) and NBSP (0xA0).\<close>

definition is_float_space :: "char \<Rightarrow> bool" where
  "is_float_space c =
     (let n = (of_char c :: nat) in (9 \<le> n \<and> n \<le> 13) \<or> n = 32 \<or> n = 133 \<or> n = 160)"

definition float_strip :: "string \<Rightarrow> string" where
  "float_strip s = rev (dropWhile is_float_space (rev (dropWhile is_float_space s)))"

text \<open>An underscore is accepted only between two digits; \<open>prev\<close> is the character before.\<close>

fun underscores_ok :: "char option \<Rightarrow> string \<Rightarrow> bool" where
  "underscores_ok prev [] = (prev \<noteq> Some CHR ''_'')"
| "underscores_ok prev (c # cs) =
     ((if c = CHR ''_'' then (case prev of Some p \<Rightarrow> is_digit p | None \<Rightarrow> False)
       else if prev = Some CHR ''_'' then is_digit c else True)
      \<and> underscores_ok (Some c) cs)"

text \<open>The exponent part: nothing, or \<open>e\<close>/\<open>E\<close>, an optional sign and at least one digit.\<close>

definition parse_exponent :: "string \<Rightarrow> int option" where
  "parse_exponent s =
     (case s of
        [] \<Rightarrow> Some 0
      | c # t \<Rightarrow>
          if c = CHR ''e'' \<or> c = CHR ''E'' then
            (let (neg, ds) = (case t of
                                d # t' \<Rightarrow> if d = CHR ''-'' then (True, t')
                                          else if d = CHR ''+'' then (False, t') else (False, t)
                              | [] \<Rightarrow> (False, t))
             in if ds \<noteq> [] \<and> list_all is_digit ds
                then Some (if neg then - int (nat_of_digits ds) else int (nat_of_digits ds))
                else None)
          else None)"

definition scale10 :: "rat \<Rightarrow> int \<Rightarrow> rat" where
  "scale10 m e = (if 0 \<le> e then m * 10 ^ nat e else m / 10 ^ nat (- e))"

text \<open>An unsigned decimal number: digits, an optional point and digits (at least one digit
  in all), an optional exponent, and nothing after it.\<close>

definition parse_decimal :: "string \<Rightarrow> rat option" where
  "parse_decimal s =
     (let ip = takeWhile is_digit s; r1 = dropWhile is_digit s;
          (fp, r2) = (case r1 of
                        c # t \<Rightarrow> if c = CHR ''.'' then (takeWhile is_digit t, dropWhile is_digit t)
                                 else ([], r1)
                      | [] \<Rightarrow> ([], r1))
      in if ip = [] \<and> fp = [] then None
         else (case parse_exponent r2 of
                 None \<Rightarrow> None
               | Some e \<Rightarrow> Some (scale10 (of_nat (nat_of_digits (ip @ fp)) / 10 ^ length fp) e)))"

definition parse_unsigned :: "string \<Rightarrow> pyfloat option" where
  "parse_unsigned s =
     (let l = py_lower s
      in if l = ''inf'' \<or> l = ''infinity'' then Some PosInf
         else if l = ''nan'' then Some NaN
         else map_option Finite (parse_decimal s))"

definition negate :: "pyfloat \<Rightarrow> pyfloat" where
  "negate x = (case x of Finite q \<Rightarrow> Finite (- q) | PosInf \<Rightarrow> NegInf | NegInf \<Rightarrow> PosInf | NaN \<Rightarrow> NaN)"

text \<open>\<open>float(s)\<close>: \<open>ValueError\<close> unless the stripped string is an optionally signed
  number, infinity or nan.\<close>

definition py_float :: "string \<Rightarrow> exn + pyfloat" where
  "py_float s =
     (if \<not> underscores_ok None s then Inl ValueError
      else (let t = float_strip (py_remove CHR ''_'' s);
                r = (case t of
                       c # u \<Rightarrow> if c = CHR ''-'' then map_option negate (parse_unsigned u)
                                else if c = CHR ''+'' then parse_unsigned u
                                else parse_unsigned t
                     | [] \<Rightarrow> None)
            in (case r of None \<Rightarrow> Inl ValueError | Some x \<Rightarrow> Inr x)))"

section \<open>The table metric extractor (\<open>data/utils.py\<close>)\<close>

text \<open>\<open>try: ... except (ValueError, IndexError): return None\<close>\<close>

definition safe_float :: "string \<Rightarrow> exn + pyfloat option" where
  "safe_float v =
     (let r = (if py_in ''&'' v
               then (case py_index (py_split CHR ''&'' v) 1 of
                       Inl e \<Rightarrow> Inl e
                     | Inr seg \<Rightarrow> py_float (py_remove CHR '','' seg))
               else py_float (py_remove CHR '','' v))
      in (case r of
            Inr x \<Rightarrow> Inr (Some x)
          | Inl e \<Rightarrow> if e = ValueError \<or> e = IndexError then Inr None else Inl e))"

text \<open>Sequencing of computations that may raise: the first exception ends the run.\<close>

definition bindE :: "exn + 'a \<Rightarrow> ('a \<Rightarrow> exn + 'b) \<Rightarrow> exn + 'b" where
  "bindE r f = (case r of Inl e \<Rightarrow> Inl e | Inr x \<Rightarrow> f x)"

text \<open>
  A table row is a list of cells, a table a list of rows.  The input record \<open>data[0]\<close> is
  a dictionary; the extractor reads only its keys \<open>mda_liquidity_tables\<close> and
  \<open>after_mda_tables\<close>, each bound to a list of tables.  The result dictionary
  \<open>metrics\<close> is an association list in insertion order, as a Python \<open>dict\<close> keeps it:
  \<open>AList.update\<close> overwrites the value of a key that is present and appends a new key.
\<close>

type_synonym row = "string list"
type_synonym table = "row list"
type_synonym input_record = "string \<rightharpoonup> table list"
type_synonym MetricsMap = "(string \<times> pyfloat option) list"

text \<open>\<open>d[k]\<close> on a dictionary.\<close>

definition py_getitem :: "('k \<rightharpoonup> 'v) \<Rightarrow> 'k \<Rightarrow> exn + 'v" where
  "py_getitem d k = (case d k of None \<Rightarrow> Inl KeyError | Some v \<Rightarrow> Inr v)"

text \<open>\<open>metrics[key] = safe_float(item[2])\<close>; \<open>item[2]\<close> is read outside the
  \<open>try\<close> of \<open>safe_float\<close>, so its \<open>IndexError\<close> is not caught.\<close>

definition store :: "string \<Rightarrow> row \<Rightarrow> MetricsMap \<Rightarrow> exn + MetricsMap" where
  "store key item metrics =
     bindE (py_index item 2) (\<lambda>cell.
     bindE (safe_float cell) (\<lambda>x. Inr (AList.update key x metrics)))"

text \<open>The bodies of the four \<open>for item in ...\<close> loops.  Every condition of a chain reads
  \<open>item[0].lower()\<close>; the read is written once, in front of the chain.\<close>

definition liquidity_item :: "row \<Rightarrow> MetricsMap \<Rightarrow> exn + MetricsMap" where
  "liquidity_item item metrics =
     bindE (py_index item 0) (\<lambda>label.
       if py_in ''total identifiable intangible assets'' (py_lower label)
         then store ''total_identifiable_intangible_assets'' item metrics
       else if py_in ''trade names'' (py_lower label)
         then store ''trade_names'' item metrics
       else if py_in ''developed technology'' (py_lower label)
         then store ''developed_technology'' item metrics
       else if py_in ''customer relationships'' (py_lower label)
         then store ''customer_relationships'' item metrics
       else Inr metrics)"

definition balance_sheet_item :: "row \<Rightarrow> MetricsMap \<Rightarrow> exn + MetricsMap" where
  "balance_sheet_item item metrics =
     bindE (py_index item 0) (\<lambda>label.
       if py_in ''total current assets'' (py_lower label)
         then store ''current_assets'' item metrics
       else if py_in ''total assets'' (py_lower label)
         then store ''total_assets'' item metrics
       else if py_in ''total current liabilities'' (py_lower label)
         then store ''current_liabilities'' item metrics
       else if py_in ''total liabilities'' (py_lower label)
         then store ''total_liabilities'' item metrics
       else if py_in ''total stockholders equity'' (py_lower label)
         then store ''total_stockholders_equity'' item metrics
       else if py_in ''cash and cash equivalents'' (py_lower label)
         then store ''cash_and_cash_equivalents'' item metrics
       else if py_in ''inventories'' (py_lower label)
         then store ''inventory'' item metrics
       else if py_in ''accounts receivable'' (py_lower label)
         then store ''accounts_receivable'' item metrics
       else if py_in ''accounts payable'' (py_lower label)
         then store ''accounts_payable'' item metrics
       else if py_in ''goodwill'' (py_lower label)
         then store ''goodwill'' item metrics
       else if py_in ''intangible assets net'' (py_lower label)
         then store ''intangible_assets'' item metrics
       else if py_in ''long-term debt net of current portion'' (py_lower label)
         then store ''long_term_debt'' item metrics
       else Inr metrics)"

definition income_statement_item :: "row \<Rightarrow> MetricsMap \<Rightarrow> exn + MetricsMap" where
  "income_statement_item item metrics =
     bindE (py_index item 0) (\<lambda>label.
       if py_in ''sales'' (py_lower label)
         then store ''sales'' item metrics
       else if py_in ''net earnings'' (py_lower label)
         then store ''net_earnings'' item metrics
       else if py_in ''basic net earnings per common share'' (py_lower label)
         then store ''basic_eps'' item metrics
       else if py_in ''diluted net earnings per common share'' (py_lower label)
         then store ''diluted_eps'' item metrics
       else if py_in ''operating earnings'' (py_lower label)
         then store ''operating_earnings'' item metrics
       else if py_in ''gross profit'' (py_lower label)
         then store ''gross_profit'' item metrics
       else if py_in ''depreciation depletion and amortization'' (py_lower label)
         then store ''depreciation_and_amortization'' item metrics
       else Inr metrics)"

definition cash_flow_item :: "row \<Rightarrow> MetricsMap \<Rightarrow> exn + MetricsMap" where
  "cash_flow_item item metrics =
     bindE (py_index item 0) (\<lambda>label.
       if py_in ''net cash provided by operating activities'' (py_lower label)
         then store ''net_cash_operating_activities'' item metrics
       else if py_in ''net cash used in investing activities'' (py_lower label)
         then store ''net_cash_investing_activities'' item metrics
       else if py_in ''net cash provided by financing activities'' (py_lower label)
         then store ''net_cash_financing_activities'' item metrics
       else Inr metrics)"

text \<open>\<open>for item in rows: body\<close>\<close>

fun for_items :: "(row \<Rightarrow> MetricsMap \<Rightarrow> exn + MetricsMap) \<Rightarrow> table \<Rightarrow> MetricsMap
    \<Rightarrow> exn + MetricsMap" where
  "for_items body [] metrics = Inr metrics"
| "for_items body (item # items) metrics =
     bindE (body item metrics) (for_items body items)"

definition liquidity_part :: "input_record \<Rightarrow> MetricsMap \<Rightarrow> exn + MetricsMap" where
  "liquidity_part d metrics =
     (if ''mda_liquidity_tables'' \<in> dom d then
        bindE (py_getitem d ''mda_liquidity_tables'') (\<lambda>tables.
        bindE (py_index tables 0) (\<lambda>liquidity_data.
        for_items liquidity_item liquidity_data metrics))
      else Inr metrics)"

definition balance_sheet_part :: "input_record \<Rightarrow> MetricsMap \<Rightarrow> exn + MetricsMap" where
  "balance_sheet_part d metrics =
     (if ''after_mda_tables'' \<in> dom d then
        bindE (py_getitem d ''after_mda_tables'') (\<lambda>tables.
        bindE (py_index tables 0) (\<lambda>balance_sheet_data.
        for_items balance_sheet_item balance_sheet_data metrics))
      else Inr metrics)"

definition income_statement_part :: "input_record \<Rightarrow> MetricsMap \<Rightarrow> exn + MetricsMap" where
  "income_statement_part d metrics =
     (if ''after_mda_tables'' \<in> dom d then
        bindE (py_getitem d ''after_mda_tables'') (\<lambda>tables.
        bindE (py_index tables 1) (\<lambda>income_statement_data.
        for_items income_statement_item income_statement_data metrics))
      else Inr metrics)"

definition cash_flow_part :: "input_record \<Rightarrow> MetricsMap \<Rightarrow> exn + MetricsMap" where
  "cash_flow_part d metrics =
     (if ''after_mda_tables'' \<in> dom d then
        bindE (py_getitem d ''after_mda_tables'') (\<lambda>tables.
        bindE (py_index tables 2) (\<lambda>cash_flow_data.
        for_items cash_flow_item cash_flow_data metrics))
      else Inr metrics)"

text \<open>\<open>extract_important_metrics(data)\<close>: \<open>data[0]\<close> is read first by the condition
  of the liquidity part.  An exception leaves the function and the partly filled
  \<open>metrics\<close> is lost.\<close>

definition extract_important_metrics :: "input_record list \<Rightarrow> exn + MetricsMap" where
  "extract_important_metrics data =
     bindE (py_index data 0) (\<lambda>d.
     bindE (liquidity_part d []) (\<lambda>m1.
     bindE (balance_sheet_part d m1) (\<lambda>m2.
     bindE (income_statement_part d m2) (\<lambda>m3.
     cash_flow_part d m3))))"

subsection \<open>The rule tables of the specification\<close>

text \<open>
  The specification describes each table's matching as an ordered list of
  (substring, canonical key) rules, the first matching rule winning.  The lists below
  follow that description; \<open>spec_item\<close> is the loop body it describes.
\<close>

datatype table_kind = Liquidity | BalanceSheet | IncomeStatement | CashFlow

definition liquidity_rules :: "(string \<times> string) list" where
  "liquidity_rules =
     [(''total identifiable intangible assets'', ''total_identifiable_intangible_assets''),
      (''trade names'', ''trade_names''),
      (''developed technology'', ''developed_technology''),
      (''customer relationships'', ''customer_relationships'')]"

definition balance_sheet_rules :: "(string \<times> string) list" where
  "balance_sheet_rules =
     [(''total current assets'', ''current_assets''),
      (''total assets'', ''total_assets''),
      (''total current liabilities'', ''current_liabilities''),
      (''total liabilities'', ''total_liabilities''),
      (''total stockholders equity'', ''total_stockholders_equity''),
      (''cash and cash equivalents'', ''cash_and_cash_equivalents''),
      (''inventories'', ''inventory''),
      (''accounts receivable'', ''accounts_receivable''),
      (''accounts payable'', ''accounts_payable''),
      (''goodwill'', ''goodwill''),
      (''intangible assets net'', ''intangible_assets''),
      (''long-term debt net of current portion'', ''long_term_debt'')]"

definition income_statement_rules :: "(string \<times> string) list" where
  "income_statement_rules =
     [(''sales'', ''sales''),
      (''net earnings'', ''net_earnings''),
      (''basic net earnings per common share'', ''basic_eps''),
      (''diluted net earnings per common share'', ''diluted_eps''),
      (''operating earnings'', ''operating_earnings''),
      (''gross profit'', ''gross_profit''),
      (''depreciation depletion and amortization'', ''depreciation_and_amortization'')]"

definition cash_flow_rules :: "(string \<times> string) list" where
  "cash_flow_rules =
     [(''net cash provided by operating activities'', ''net_cash_operating_activities''),
      (''net cash used in investing activities'', ''net_cash_investing_activities''),
      (''net cash provided by financing activities'', ''net_cash_financing_activities'')]"

fun rules_of :: "table_kind \<Rightarrow> (string \<times> string) list" where
  "rules_of Liquidity = liquidity_rules"
| "rules_of BalanceSheet = balance_sheet_rules"
| "rules_of IncomeStatement = income_statement_rules"
| "rules_of CashFlow = cash_flow_rules"

fun item_of :: "table_kind \<Rightarrow> row \<Rightarrow> MetricsMap \<Rightarrow> exn + MetricsMap" where
  "item_of Liquidity = liquidity_item"
| "item_of BalanceSheet = balance_sheet_item"
| "item_of IncomeStatement = income_statement_item"
| "item_of CashFlow = cash_flow_item"

fun first_match :: "(string \<times> string) list \<Rightarrow> string \<Rightarrow> string option" where
  "first_match [] label = None"
| "first_match ((sub, key) # rules) label =
     (if py_in sub label then Some key else first_match rules label)"

definition spec_item :: "(string \<times> string) list \<Rightarrow> row \<Rightarrow> MetricsMap \<Rightarrow> exn + MetricsMap" where
  "spec_item rules item metrics =
     bindE (py_index item 0) (\<lambda>label.
       case first_match rules (py_lower label) of
         None \<Rightarrow> Inr metrics
       | Some key \<Rightarrow> store key item metrics)"

text \<open>The canonical key a row is stored under, if any.\<close>

definition row_key :: "table_kind \<Rightarrow> row \<Rightarrow> string option" where
  "row_key kind item =
     (case item of [] \<Rightarrow> None | label # _ \<Rightarrow> first_match (rules_of kind) (py_lower label))"

text \<open>The rows of a logical table in the input record, when the record has it.\<close>

fun table_rows :: "table_kind \<Rightarrow> input_record \<Rightarrow> table option" where
  "table_rows Liquidity d =
     (case d ''mda_liquidity_tables'' of Some (t # _) \<Rightarrow> Some t | _ \<Rightarrow> None)"
| "table_rows BalanceSheet d =
     (case d ''after_mda_tables'' of Some (t # _) \<Rightarrow> Some t | _ \<Rightarrow> None)"
| "table_rows IncomeStatement d =
     (case d ''after_mda_tables'' of Some (_ # t # _) \<Rightarrow> Some t | _ \<Rightarrow> None)"
| "table_rows CashFlow d =
     (case d ''after_mda_tables'' of Some (_ # _ # t # _) \<Rightarrow> Some t | _ \<Rightarrow> None)"

subsection \<open>The numeric candidate of the specification\<close>

text \<open>The text between the first ampersand of a string and the next one (or the end).\<close>

definition amp_segment :: "string \<Rightarrow> string" where
  "amp_segment v =
     takeWhile (\<lambda>c. c \<noteq> CHR ''&'') (tl (dropWhile (\<lambda>c. c \<noteq> CHR ''&'') v))"

text \<open>The string that \<open>safe_float\<close> hands to \<open>float\<close>.\<close>

definition numeric_candidate :: "string \<Rightarrow> string" where
  "numeric_candidate v =
     py_remove CHR '','' (if CHR ''&'' \<in> set v then amp_segment v else v)"

text \<open>
  The normalizer as the specification words it: if the string contains an ampersand,
  split on the first ampersand and take what follows it, otherwise take the whole
  string; strip the commas; convert, and return the missing marker on failure.
\<close>

definition spec_safe_float :: "string \<Rightarrow> exn + pyfloat option" where
  "spec_safe_float v =
     (let cand = (if CHR ''&'' \<in> set v then tl (dropWhile (\<lambda>c. c \<noteq> CHR ''&'') v) else v)
      in (case py_float (py_remove CHR '','' cand) of
            Inl e \<Rightarrow> Inr None
          | Inr x \<Rightarrow> Inr (Some x)))"

subsection \<open>Well-formed input\<close>

text \<open>A row is processed without an exception exactly when it has a label cell and,
  if a rule matches, a value cell.\<close>

definition row_ok :: "table_kind \<Rightarrow> row \<Rightarrow> bool" where
  "row_ok kind item = (item \<noteq> [] \<and> (row_key kind item = None \<or> 3 \<le> length item))"

text \<open>The key of the input record under which a logical table is stored, and the part
  of \<open>extract_important_metrics\<close> that reads it.\<close>

fun source_key :: "table_kind \<Rightarrow> string" where
  "source_key Liquidity = ''mda_liquidity_tables''"
| "source_key BalanceSheet = ''after_mda_tables''"
| "source_key IncomeStatement = ''after_mda_tables''"
| "source_key CashFlow = ''after_mda_tables''"

fun part_of :: "table_kind \<Rightarrow> input_record \<Rightarrow> MetricsMap \<Rightarrow> exn + MetricsMap" where
  "part_of Liquidity = liquidity_part"
| "part_of BalanceSheet = balance_sheet_part"
| "part_of IncomeStatement = income_statement_part"
| "part_of CashFlow = cash_flow_part"

fun run_parts :: "table_kind list \<Rightarrow> input_record \<Rightarrow> MetricsMap \<Rightarrow> exn + MetricsMap" where
  "run_parts [] d metrics = Inr metrics"
| "run_parts (kind # kinds) d metrics = bindE (part_of kind d metrics) (run_parts kinds d)"

text \<open>A logical table is in order when its key is absent, or the table is there and all
  its rows are in order.\<close>

definition table_ok :: "table_kind \<Rightarrow> input_record \<Rightarrow> bool" where
  "table_ok kind d =
     (if source_key kind \<in> dom d
      then (case table_rows kind d of None \<Rightarrow> False | Some rows \<Rightarrow> list_all (row_ok kind) rows)
      else True)"

definition well_formed :: "input_record \<Rightarrow> bool" where
  "well_formed d =
     (table_ok Liquidity d \<and> table_ok BalanceSheet d \<and> table_ok IncomeStatement d
      \<and> table_ok CashFlow d)"

section \<open>Properties\<close>

lemma char_eq_char_of: "(c = char_of (n::nat)) \<longleftrightarrow> (of_char c = n mod 256)"
proof -
  have "(char_of n = c) \<longleftrightarrow> (take_bit 8 n = (of_char c :: nat))"
    by (rule char_of_eq_iff)
  then show ?thesis
    by (simp only: take_bit_eq_mod) (simp add: eq_commute)
qed

lemma char_of_eq_char: "(char_of (n::nat) = c) \<longleftrightarrow> (of_char c = n mod 256)"
  by (subst eq_commute) (rule char_eq_char_of)

lemmas lower_defs = py_lower_def lower_char_def char_eq_char_of char_of_eq_char

lemmas float_defs = py_float_def float_strip_def is_float_space_def parse_unsigned_def
  py_lower_def lower_char_def char_eq_char_of char_of_eq_char parse_decimal_def is_digit_def parse_exponent_def
  nat_of_digits_def digit_val_def scale10_def py_remove_def negate_def

lemma py_in_sublist: "py_in sub s \<longleftrightarrow> sublist sub s"
  by (induction s) (simp_all add: sublist_Cons_right)

lemma py_in_char: "py_in [c] s \<longleftrightarrow> c \<in> set s"
  by (induction s) auto

lemma py_split_nonempty: "py_split sep s \<noteq> []"
  by (induction s) (auto split: list.splits)

lemma py_split_hd: "hd (py_split sep s) = takeWhile (\<lambda>c. c \<noteq> sep) s"
  using py_split_nonempty [of sep]
  by (induction s) (auto split: list.splits)

lemma py_split_second:
  "sep \<in> set s \<Longrightarrow>
   py_index (py_split sep s) 1 =
     Inr (takeWhile (\<lambda>c. c \<noteq> sep) (tl (dropWhile (\<lambda>c. c \<noteq> sep) s)))"
proof (induction s)
  case Nil
  then show ?case by simp
next
  case (Cons c cs)
  show ?case
  proof (cases "c = sep")
    case True
    obtain p ps where ps: "py_split sep cs = p # ps"
      using py_split_nonempty [of sep cs] by (cases "py_split sep cs") auto
    have "p = takeWhile (\<lambda>c. c \<noteq> sep) cs"
      using py_split_hd [of sep cs] ps by simp
    with True ps show ?thesis by (simp add: py_index_def)
  next
    case False
    with Cons.prems have "sep \<in> set cs" by simp
    from Cons.IH [OF this] False show ?thesis
      by (auto simp: py_index_def split: list.splits if_splits)
  qed
qed

lemma py_float_error: "py_float s = Inl e \<Longrightarrow> e = ValueError"
  by (auto simp: py_float_def Let_def split: if_splits option.splits)

lemma safe_float_amp:
  assumes "CHR ''&'' \<in> set v"
  shows "safe_float v = (case py_float (py_remove CHR '','' (amp_segment v)) of
                           Inl e \<Rightarrow> Inr None | Inr x \<Rightarrow> Inr (Some x))"
proof -
  have seg: "py_index (py_split CHR ''&'' v) (Suc 0) = Inr (amp_segment v)"
    using py_split_second [OF assms] by (simp add: amp_segment_def)
  have inn: "py_in ''&'' v"
    using assms by (simp add: py_in_char)
  show ?thesis
  proof (cases "py_float (py_remove CHR '','' (amp_segment v))")
    case (Inl e)
    then have "e = ValueError" by (rule py_float_error)
    with Inl show ?thesis
      by (simp add: safe_float_def inn seg)
  next
    case (Inr x)
    then show ?thesis
      by (simp add: safe_float_def inn seg)
  qed
qed

lemma safe_float_plain:
  "CHR ''&'' \<notin> set v \<Longrightarrow>
   safe_float v = (case py_float (py_remove CHR '','' v) of
                     Inl e \<Rightarrow> Inr None | Inr x \<Rightarrow> Inr (Some x))"
  using py_float_error [of "py_remove CHR '','' v"]
  by (auto simp: safe_float_def py_in_char split: sum.splits)

lemma safe_float_returns: "\<exists>r. safe_float v = Inr r"
  by (cases "CHR ''&'' \<in> set v") (auto simp: safe_float_amp safe_float_plain split: sum.splits)

lemma safe_float_level2_5000: "safe_float ''Level 2 & 5,000'' = Inr (Some (Finite 5000))"
  by (simp add: safe_float_def py_index_def float_defs)
lemma safe_float_level2_empty: "safe_float ''Level 2 &'' = Inr None"
  by (simp add: safe_float_def py_index_def float_defs)
lemma safe_float_NA: "safe_float ''N/A'' = Inr None"
  by (simp add: safe_float_def py_index_def float_defs)
lemma safe_float_two_ampersands: "safe_float ''A&5&B'' = Inr (Some (Finite 5))"
  by (simp add: safe_float_def py_index_def float_defs)
lemma spec_safe_float_two_ampersands: "spec_safe_float ''A&5&B'' = Inr None"
  by (simp add: spec_safe_float_def float_defs)
lemma safe_float_dollar: "safe_float ''$1,000,000'' = Inr None"
  by (simp add: safe_float_def py_index_def float_defs)
lemma safe_float_million: "safe_float ''1,000,000'' = Inr (Some (Finite 1000000))"
  by (simp add: safe_float_def py_index_def float_defs)
lemma safe_float_thousands: "safe_float ''1,234.5'' = Inr (Some (Finite (2469/2)))"
  by (simp add: safe_float_def py_index_def float_defs)

lemma bindE_Inr_iff: "bindE r f = Inr y \<longleftrightarrow> (\<exists>x. r = Inr x \<and> f x = Inr y)"
  by (cases r) (simp_all add: bindE_def)

lemma bindE_simps: "bindE (Inr x) f = f x" "bindE (Inl e) f = Inl e"
  by (simp_all add: bindE_def)

lemma item_of_spec: "item_of kind item metrics = spec_item (rules_of kind) item metrics"
proof (cases kind)
  case Liquidity
  then show ?thesis
    by (simp add: liquidity_item_def spec_item_def liquidity_rules_def bindE_def split: sum.splits)
next
  case BalanceSheet
  then show ?thesis
    by (simp add: balance_sheet_item_def spec_item_def balance_sheet_rules_def bindE_def
        split: sum.splits)
next
  case IncomeStatement
  then show ?thesis
    by (simp add: income_statement_item_def spec_item_def income_statement_rules_def bindE_def
        split: sum.splits)
next
  case CashFlow
  then show ?thesis
    by (simp add: cash_flow_item_def spec_item_def cash_flow_rules_def bindE_def
        split: sum.splits)
qed

lemma item_of_fun: "item_of kind = spec_item (rules_of kind)"
  by (intro ext) (rule item_of_spec)

text \<open>What one pass of a loop body does, by the key of the row.\<close>

lemma spec_item_no_match:
  "row_key kind (label # rest) = None \<Longrightarrow> item_of kind (label # rest) metrics = Inr metrics"
  by (simp add: item_of_spec spec_item_def row_key_def py_index_def bindE_def)

lemma spec_item_match:
  assumes "row_key kind (label # c1 # cell # rest) = Some key"
  shows "\<exists>x. safe_float cell = Inr x \<and>
             item_of kind (label # c1 # cell # rest) metrics = Inr (AList.update key x metrics)"
proof -
  obtain x where "safe_float cell = Inr x"
    using safe_float_returns by blast
  with assms show ?thesis
    by (simp add: item_of_spec spec_item_def row_key_def py_index_def bindE_def store_def)
qed

lemma item_of_cases:
  "item_of kind item m = Inr m' \<longleftrightarrow>
     row_ok kind item \<and>
     (case row_key kind item of
        None \<Rightarrow> m' = m
      | Some key \<Rightarrow> \<exists>x. safe_float (item ! 2) = Inr x \<and> m' = AList.update key x m)"
proof (cases item)
  case Nil
  then show ?thesis
    by (simp add: item_of_spec spec_item_def py_index_def bindE_def row_ok_def)
next
  case (Cons label rest)
  show ?thesis
  proof (cases "row_key kind item")
    case None
    with Cons show ?thesis
      using spec_item_no_match [of kind label rest m] by (auto simp: row_ok_def)
  next
    case (Some key)
    show ?thesis
    proof (cases "3 \<le> length item")
      case True
      then obtain c1 cell rest' where item: "item = label # c1 # cell # rest'"
        using Cons by (cases rest; cases "tl rest") auto
      from spec_item_match [of kind label c1 cell rest' key m] Some item
      show ?thesis by (auto simp: row_ok_def)
    next
      case False
      then have "py_index item 2 = Inl IndexError"
        by (simp add: py_index_def)
      with Some Cons False show ?thesis
        by (simp add: item_of_spec spec_item_def row_key_def py_index_def bindE_def store_def
            row_ok_def)
    qed
  qed
qed

lemma for_items_append:
  "for_items body (xs @ ys) m = bindE (for_items body xs m) (for_items body ys)"
  by (induction xs arbitrary: m) (auto simp: bindE_def split: sum.splits)

lemma for_items_returns:
  "(\<exists>m'. for_items (item_of kind) rows m = Inr m') \<longleftrightarrow> (\<forall>r\<in>set rows. row_ok kind r)"
proof (induction rows arbitrary: m)
  case Nil
  then show ?case by simp
next
  case (Cons r rows)
  show ?case
  proof (cases "item_of kind r m")
    case (Inl e)
    have "\<not> row_ok kind r"
    proof
      assume ok: "row_ok kind r"
      obtain x where x: "safe_float (r ! 2) = Inr x"
        using safe_float_returns by blast
      define m1 where "m1 = (case row_key kind r of None \<Rightarrow> m | Some key \<Rightarrow> AList.update key x m)"
      have "item_of kind r m = Inr m1"
        unfolding item_of_cases using ok x by (auto simp: m1_def split: option.splits)
      with Inl show False by simp
    qed
    with Inl show ?thesis by (simp add: bindE_def)
  next
    case (Inr m1)
    then have "row_ok kind r" by (simp add: item_of_cases)
    with Inr Cons.IH [of m1] show ?thesis by (simp add: bindE_def)
  qed
qed

lemma for_items_other_key:
  "for_items (item_of kind) rows m = Inr m' \<Longrightarrow> \<forall>r\<in>set rows. row_key kind r \<noteq> Some k \<Longrightarrow>
   map_of m' k = map_of m k"
proof (induction rows arbitrary: m)
  case Nil
  then show ?case by simp
next
  case (Cons r rows)
  from Cons.prems(1) obtain m1 where
    step: "item_of kind r m = Inr m1" and rest: "for_items (item_of kind) rows m1 = Inr m'"
    by (auto simp: bindE_Inr_iff)
  from step Cons.prems(2) have "map_of m1 k = map_of m k"
    by (auto simp: item_of_cases update_conv' split: option.splits)
  moreover from Cons.IH [OF rest] Cons.prems(2) have "map_of m' k = map_of m1 k"
    by simp
  ultimately show ?case by simp
qed

lemma for_items_distinct:
  "for_items (item_of kind) rows m = Inr m' \<Longrightarrow> distinct (map fst m) \<Longrightarrow> distinct (map fst m')"
proof (induction rows arbitrary: m)
  case Nil
  then show ?case by simp
next
  case (Cons r rows)
  from Cons.prems(1) obtain m1 where
    step: "item_of kind r m = Inr m1" and rest: "for_items (item_of kind) rows m1 = Inr m'"
    by (auto simp: bindE_Inr_iff)
  from step Cons.prems(2) have "distinct (map fst m1)"
    by (auto simp: item_of_cases distinct_update split: option.splits)
  with Cons.IH [OF rest] show ?case .
qed

lemma for_items_last_row:
  assumes run: "for_items (item_of kind) (rows1 @ r # rows2) m = Inr m'"
    and key: "row_key kind r = Some k"
    and later: "\<forall>r'\<in>set rows2. row_key kind r' \<noteq> Some k"
  shows "\<exists>x. safe_float (r ! 2) = Inr x \<and> map_of m' k = Some x"
proof -
  from run obtain m1 m2 where
    "for_items (item_of kind) rows1 m = Inr m1" and
    step: "item_of kind r m1 = Inr m2" and
    rest: "for_items (item_of kind) rows2 m2 = Inr m'"
    by (auto simp: for_items_append bindE_Inr_iff)
  from step key obtain x where x: "safe_float (r ! 2) = Inr x" and "m2 = AList.update k x m1"
    by (auto simp: item_of_cases)
  then have "map_of m2 k = Some x"
    by (simp add: update_conv')
  with for_items_other_key [OF rest later] x show ?thesis by simp
qed

lemma part_of_eq:
  "part_of kind d m =
     (if source_key kind \<in> dom d
      then (case table_rows kind d of
              None \<Rightarrow> Inl IndexError
            | Some rows \<Rightarrow> for_items (item_of kind) rows m)
      else Inr m)"
proof (cases kind)
  case Liquidity
  then show ?thesis
    by (auto simp: liquidity_part_def py_getitem_def py_index_def bindE_def
        split: option.splits list.splits)
next
  case BalanceSheet
  then show ?thesis
    by (auto simp: balance_sheet_part_def py_getitem_def py_index_def bindE_def
        split: option.splits list.splits)
next
  case IncomeStatement
  then show ?thesis
    by (auto simp: income_statement_part_def py_getitem_def py_index_def bindE_def
        split: option.splits list.splits)
next
  case CashFlow
  then show ?thesis
    by (auto simp: cash_flow_part_def py_getitem_def py_index_def bindE_def
        split: option.splits list.splits)
qed

lemma table_rows_dom: "table_rows kind d = Some rows \<Longrightarrow> source_key kind \<in> dom d"
  by (cases kind) (auto split: option.splits)

lemma part_of_returns: "(\<exists>m'. part_of kind d m = Inr m') \<longleftrightarrow> table_ok kind d"
  using for_items_returns [of kind _ m]
  by (auto simp: part_of_eq table_ok_def list_all_iff split: option.splits)

lemma extract_run_parts:
  "extract_important_metrics (d # ds) =
     run_parts [Liquidity, BalanceSheet, IncomeStatement, CashFlow] d []"
  by (simp add: extract_important_metrics_def py_index_def bindE_def split: sum.splits)

lemma run_parts_append:
  "run_parts (ks1 @ ks2) d m = bindE (run_parts ks1 d m) (run_parts ks2 d)"
  by (induction ks1 arbitrary: m) (auto simp: bindE_def split: sum.splits)

lemma run_parts_returns:
  "(\<exists>m'. run_parts ks d m = Inr m') \<longleftrightarrow> (\<forall>kind\<in>set ks. table_ok kind d)"
proof (induction ks arbitrary: m)
  case Nil
  then show ?case by simp
next
  case (Cons kind ks)
  show ?case
  proof (cases "part_of kind d m")
    case (Inl e)
    then have "\<not> table_ok kind d"
      using part_of_returns [of kind d m] by simp
    with Inl show ?thesis by (simp add: bindE_def)
  next
    case (Inr m1)
    then have "table_ok kind d"
      using part_of_returns [of kind d m] by auto
    with Inr Cons.IH [of m1] show ?thesis by (simp add: bindE_def)
  qed
qed

lemma extract_returns:
  "(\<exists>m. extract_important_metrics (d # ds) = Inr m) \<longleftrightarrow> well_formed d"
  by (simp add: extract_run_parts run_parts_returns well_formed_def del: run_parts.simps)

lemma first_match_in_rules: "first_match rules label = Some k \<Longrightarrow> k \<in> snd ` set rules"
  by (induction rules label rule: first_match.induct) (auto split: if_splits)

lemma row_key_in_rules: "row_key kind r = Some k \<Longrightarrow> k \<in> snd ` set (rules_of kind)"
  by (auto simp: row_key_def dest: first_match_in_rules split: list.splits)

lemma keys_disjoint:
  "kind \<noteq> kind' \<Longrightarrow> k \<in> snd ` set (rules_of kind) \<Longrightarrow> k \<notin> snd ` set (rules_of kind')"
  by (cases kind; cases kind')
    (auto simp: liquidity_rules_def balance_sheet_rules_def income_statement_rules_def
      cash_flow_rules_def)

lemma part_of_other_key:
  assumes "part_of kind d m = Inr m'"
    and "k \<notin> snd ` set (rules_of kind) \<or> source_key kind \<notin> dom d"
  shows "map_of m' k = map_of m k"
proof (cases "source_key kind \<in> dom d")
  case False
  with assms(1) show ?thesis by (simp add: part_of_eq)
next
  case True
  with assms(2) have k: "k \<notin> snd ` set (rules_of kind)" by simp
  from True assms(1) obtain rows where "for_items (item_of kind) rows m = Inr m'"
    by (auto simp: part_of_eq split: option.splits)
  moreover have "\<forall>r\<in>set rows. row_key kind r \<noteq> Some k"
    using k row_key_in_rules by blast
  ultimately show ?thesis by (rule for_items_other_key)
qed

lemma part_of_distinct:
  "part_of kind d m = Inr m' \<Longrightarrow> distinct (map fst m) \<Longrightarrow> distinct (map fst m')"
  by (auto simp: part_of_eq split: if_splits option.splits dest: for_items_distinct)

lemma run_parts_other_key:
  "run_parts ks d m = Inr m' \<Longrightarrow>
   \<forall>kind\<in>set ks. k \<notin> snd ` set (rules_of kind) \<or> source_key kind \<notin> dom d \<Longrightarrow>
   map_of m' k = map_of m k"
proof (induction ks arbitrary: m)
  case Nil
  then show ?case by simp
next
  case (Cons kind ks)
  from Cons.prems(1) obtain m1 where
    step: "part_of kind d m = Inr m1" and rest: "run_parts ks d m1 = Inr m'"
    by (auto simp: bindE_Inr_iff)
  from part_of_other_key [OF step] Cons.prems(2) have "map_of m1 k = map_of m k"
    by simp
  moreover from Cons.IH [OF rest] Cons.prems(2) have "map_of m' k = map_of m1 k"
    by simp
  ultimately show ?case by simp
qed

lemma run_parts_distinct:
  "run_parts ks d m = Inr m' \<Longrightarrow> distinct (map fst m) \<Longrightarrow> distinct (map fst m')"
proof (induction ks arbitrary: m)
  case Nil
  then show ?case by simp
next
  case (Cons kind ks)
  from Cons.prems(1) obtain m1 where
    step: "part_of kind d m = Inr m1" and rest: "run_parts ks d m1 = Inr m'"
    by (auto simp: bindE_Inr_iff)
  from part_of_distinct [OF step Cons.prems(2)] have "distinct (map fst m1)" .
  with rest show ?case by (rule Cons.IH)
qed

lemma run_parts_last_row:
  assumes run: "run_parts (ks1 @ kind # ks2) d m = Inr m'"
    and later_kinds: "kind \<notin> set ks2"
    and rows: "table_rows kind d = Some (rows1 @ r # rows2)"
    and key: "row_key kind r = Some k"
    and later: "\<forall>r'\<in>set rows2. row_key kind r' \<noteq> Some k"
  shows "\<exists>x. safe_float (r ! 2) = Inr x \<and> map_of m' k = Some x"
proof -
  from run obtain m1 m2 where
    step: "part_of kind d m1 = Inr m2" and rest: "run_parts ks2 d m2 = Inr m'"
    by (auto simp: run_parts_append bindE_Inr_iff)
  from step rows have "for_items (item_of kind) (rows1 @ r # rows2) m1 = Inr m2"
    by (simp add: part_of_eq table_rows_dom)
  from for_items_last_row [OF this key later]
  obtain x where x: "safe_float (r ! 2) = Inr x" and m2: "map_of m2 k = Some x"
    by blast
  have "\<forall>kind'\<in>set ks2. k \<notin> snd ` set (rules_of kind') \<or> source_key kind' \<notin> dom d"
  proof (intro ballI disjI1)
    fix kind' assume "kind' \<in> set ks2"
    with later_kinds have "kind \<noteq> kind'" by auto
    from keys_disjoint [OF this row_key_in_rules [OF key]]
    show "k \<notin> snd ` set (rules_of kind')" .
  qed
  from run_parts_other_key [OF rest this] m2 x show ?thesis by simp
qed

lemma extract_last_row:
  assumes run: "extract_important_metrics (d # ds) = Inr m"
    and rows: "table_rows kind d = Some (rows1 @ r # rows2)"
    and key: "row_key kind r = Some k"
    and later: "\<forall>r'\<in>set rows2. row_key kind r' \<noteq> Some k"
  shows "\<exists>x. safe_float (r ! 2) = Inr x \<and> map_of m k = Some x"
proof -
  obtain ks1 ks2 where
    "[Liquidity, BalanceSheet, IncomeStatement, CashFlow] = ks1 @ kind # ks2" "kind \<notin> set ks2"
  proof (cases kind)
    case Liquidity
    then show ?thesis using that [of "[]" "[BalanceSheet, IncomeStatement, CashFlow]"] by simp
  next
    case BalanceSheet
    then show ?thesis using that [of "[Liquidity]" "[IncomeStatement, CashFlow]"] by simp
  next
    case IncomeStatement
    then show ?thesis using that [of "[Liquidity, BalanceSheet]" "[CashFlow]"] by simp
  next
    case CashFlow
    then show ?thesis using that [of "[Liquidity, BalanceSheet, IncomeStatement]" "[]"] by simp
  qed
  with run have "run_parts (ks1 @ kind # ks2) d [] = Inr m"
    by (simp add: extract_run_parts)
  from run_parts_last_row [OF this \<open>kind \<notin> set ks2\<close> rows key later] show ?thesis .
qed

lemma extract_distinct:
  "extract_important_metrics (d # ds) = Inr m \<Longrightarrow> distinct (map fst m)"
  using run_parts_distinct [of _ d "[]" m] by (simp add: extract_run_parts del: run_parts.simps)

lemma safe_float_candidate:
  "safe_float v = (case py_float (numeric_candidate v) of
                     Inl e \<Rightarrow> Inr None | Inr x \<Rightarrow> Inr (Some x))"
  by (cases "CHR ''&'' \<in> set v")
    (simp_all add: numeric_candidate_def safe_float_amp safe_float_plain)

lemma single_ampersand:
  "count_list v CHR ''&'' = 1 \<Longrightarrow> amp_segment v = tl (dropWhile (\<lambda>c. c \<noteq> CHR ''&'') v)"
proof (induction v)
  case Nil
  then show ?case by simp
next
  case (Cons c cs)
  show ?case
  proof (cases "c = CHR ''&''")
    case True
    with Cons.prems have "count_list cs CHR ''&'' = 0" by simp
    then have "CHR ''&'' \<notin> set cs" by (simp add: count_list_0_iff)
    with True show ?thesis by (auto simp: amp_segment_def)
  next
    case False
    with Cons.prems have "count_list cs CHR ''&'' = 1" by simp
    then have "amp_segment cs = tl (dropWhile (\<lambda>c. c \<noteq> CHR ''&'') cs)"
      by (rule Cons.IH)
    moreover from False have "amp_segment (c # cs) = amp_segment cs"
      by (simp add: amp_segment_def)
    ultimately show ?thesis using False by simp
  qed
qed

lemma single_ampersand_spec:
  assumes "count_list v CHR ''&'' = 1"
  shows "safe_float v = spec_safe_float v"
proof -
  have "CHR ''&'' \<in> set v"
    using assms count_list_0_iff [of v "CHR ''&''"] by auto
  then show ?thesis
    by (simp add: safe_float_candidate numeric_candidate_def spec_safe_float_def
        single_ampersand [OF assms])
qed

text \<open>
  C2.  On every string \<open>safe_float\<close> returns and raises nothing.  It returns the missing
  marker \<open>None\<close> exactly when \<open>float\<close> rejects the numeric candidate, and a float only
  when \<open>float\<close> produced that very float from the candidate: there is no default value.
  For \<open>N/A\<close> the result is \<open>None\<close>.
\<close>

theorem safe_float_never_raises:
  "(\<exists>r. safe_float v = Inr r) \<and>
   (safe_float v = Inr None \<longleftrightarrow> py_float (numeric_candidate v) = Inl ValueError) \<and>
   (\<forall>x. safe_float v = Inr (Some x) \<longleftrightarrow> py_float (numeric_candidate v) = Inr x) \<and>
   safe_float ''N/A'' = Inr None"
proof (intro conjI allI)
  show "\<exists>r. safe_float v = Inr r" by (rule safe_float_returns)
  show "safe_float v = Inr None \<longleftrightarrow> py_float (numeric_candidate v) = Inl ValueError"
    using py_float_error [of "numeric_candidate v"]
    by (auto simp: safe_float_candidate split: sum.splits)
  show "safe_float v = Inr (Some x) \<longleftrightarrow> py_float (numeric_candidate v) = Inr x" for x
    by (auto simp: safe_float_candidate split: sum.splits)
  show "safe_float ''N/A'' = Inr None" by (rule safe_float_NA)
qed

theorem safe_float_never_raises_witness:
  "safe_float ''12 apples'' = Inr None \<and> safe_float ''1,234.5'' = Inr (Some (Finite (2469 / 2)))"
proof -
  have a: "py_float (numeric_candidate ''12 apples'') = Inl ValueError"
    by (simp add: numeric_candidate_def float_defs)
  have b: "py_float (numeric_candidate ''1,234.5'') = Inr (Finite (2469 / 2))"
    by (simp add: numeric_candidate_def float_defs)
  from a b safe_float_never_raises [of "''12 apples''"] safe_float_never_raises [of "''1,234.5''"]
  show ?thesis by blast
qed

text \<open>
  C3, the claim as stated fails: in \<open>A&5&B\<close> the text after the first ampersand is
  \<open>5&B\<close>, which is no number, yet \<open>safe_float\<close> returns 5.0, because it converts
  only the piece up to the second ampersand.
\<close>

theorem second_ampersand_counterexample:
  "safe_float ''A&5&B'' = Inr (Some (Finite 5)) \<and> spec_safe_float ''A&5&B'' = Inr None"
  using safe_float_two_ampersands spec_safe_float_two_ampersands by simp

text \<open>
  C3, amended.  For a string that contains an ampersand, \<open>safe_float\<close> takes the piece
  between the first ampersand and the next one (or the end of the string), strips the
  commas from it and converts it to a float, returning \<open>None\<close> when the conversion
  fails.  When the string has exactly one ampersand this is the whole text after it.
  \<open>Level 2 & 5,000\<close> gives 5000.0 and \<open>Level 2 &\<close> gives \<open>None\<close>.
\<close>

theorem safe_float_ampersand:
  "(py_in ''&'' v \<longrightarrow>
      safe_float v = (case py_float (py_remove CHR '','' (amp_segment v)) of
                        Inl e \<Rightarrow> Inr None | Inr x \<Rightarrow> Inr (Some x))) \<and>
   (count_list v CHR ''&'' = 1 \<longrightarrow> safe_float v = spec_safe_float v) \<and>
   safe_float ''Level 2 & 5,000'' = Inr (Some (Finite 5000)) \<and>
   safe_float ''Level 2 &'' = Inr None"
  using safe_float_amp [of v] single_ampersand_spec [of v] safe_float_level2_5000 safe_float_level2_empty
  by (simp add: py_in_char)

theorem safe_float_ampersand_witness:
  "py_in ''&'' ''x & 1,5 & y'' \<and> safe_float ''x & 1,5 & y'' = Inr (Some (Finite 15))"
proof -
  have a: "py_in ''&'' ''x & 1,5 & y''" by simp
  have b: "py_float (py_remove CHR '','' (amp_segment ''x & 1,5 & y'')) = Inr (Finite 15)"
    by (simp add: amp_segment_def float_defs)
  from safe_float_ampersand [of "''x & 1,5 & y''"] a b show ?thesis by simp
qed

lemmas table_defs = well_formed_def table_ok_def row_ok_def row_key_def
  liquidity_rules_def balance_sheet_rules_def income_statement_rules_def cash_flow_rules_def

text \<open>
  C1, the claim as stated fails: \<open>safe_float\<close> does not strip the currency marker, so
  \<open>float\<close> rejects \<open>$1000000\<close> and \<open>total_assets\<close> is bound to \<open>None\<close>.
\<close>

theorem total_assets_dollar_counterexample:
  "extract_important_metrics
     [[''after_mda_tables'' \<mapsto> [[[''Total Assets'', '''', ''$1,000,000'']], [], []]]]
   = Inr [(''total_assets'', None)]"
  by (simp add: extract_important_metrics_def liquidity_part_def balance_sheet_part_def
      income_statement_part_def cash_flow_part_def balance_sheet_item_def store_def
      py_getitem_def py_index_def bindE_def lower_defs safe_float_dollar)

text \<open>
  C1, amended.  For a well-formed input whose balance-sheet table contains the row
  \<open>["Total Assets", "", v]\<close>, with no later row of that table stored under
  \<open>total_assets\<close>, \<open>extract_important_metrics\<close> returns a MetricsMap in which
  \<open>total_assets\<close> is bound to \<open>safe_float(v)\<close>: to \<open>None\<close> for
  \<open>v = "$1,000,000"\<close> and to 1000000.0 for \<open>v = "1,000,000"\<close>.
\<close>

theorem total_assets_row:
  assumes "well_formed d"
    and "table_rows BalanceSheet d = Some (rows1 @ [''Total Assets'', '''', v] # rows2)"
    and "\<forall>r\<in>set rows2. row_key BalanceSheet r \<noteq> Some ''total_assets''"
  shows "\<exists>m x. extract_important_metrics (d # ds) = Inr m \<and> safe_float v = Inr x \<and>
           map_of m ''total_assets'' = Some x \<and>
           (v = ''$1,000,000'' \<longrightarrow> x = None) \<and>
           (v = ''1,000,000'' \<longrightarrow> x = Some (Finite 1000000))"
proof -
  from assms(1) obtain m where m: "extract_important_metrics (d # ds) = Inr m"
    using extract_returns by blast
  have key: "row_key BalanceSheet [''Total Assets'', '''', v] = Some ''total_assets''"
    by (simp add: row_key_def balance_sheet_rules_def lower_defs)
  from extract_last_row [OF m assms(2) key assms(3)]
  obtain x where x: "safe_float v = Inr x" "map_of m ''total_assets'' = Some x"
    by auto
  with m safe_float_dollar safe_float_million show ?thesis by auto
qed

theorem total_assets_row_witness:
  "\<exists>m. extract_important_metrics
          [[''after_mda_tables'' \<mapsto>
              [[[''Cash'', '''', ''7''], [''Total Assets'', '''', ''1,000,000'']], [], []]]]
        = Inr m \<and> map_of m ''total_assets'' = Some (Some (Finite 1000000))"
proof -
  let ?d = "[''after_mda_tables'' \<mapsto>
              [[[''Cash'', '''', ''7''], [''Total Assets'', '''', ''1,000,000'']], [], []]]"
  have wf: "well_formed ?d"
    by (simp add: table_defs lower_defs)
  have rows: "table_rows BalanceSheet ?d
      = Some ([[''Cash'', '''', ''7'']] @ [''Total Assets'', '''', ''1,000,000''] # [])"
    by simp
  have later: "\<forall>r\<in>set []. row_key BalanceSheet r \<noteq> Some ''total_assets''"
    by simp
  from total_assets_row [OF wf rows later, of "[]"] show ?thesis by auto
qed

text \<open>
  C7.  Each loop body of \<open>extract_important_metrics\<close> is the first-match evaluation of
  its table's rule list in declaration order on the lower-cased label cell, and so is the
  loop over the rows.  A row with a label and a value cell whose first matching rule has
  key \<open>key\<close> changes the MetricsMap by the single update of \<open>key\<close> to the normalized
  value cell.  A row with a label that matches no rule leaves the MetricsMap as it is
  and raises nothing; \<open>Footnote 3\<close> is such a row in all four tables.
\<close>

theorem first_matching_rule_wins:
  "item_of kind item metrics = spec_item (rules_of kind) item metrics \<and>
   for_items (item_of kind) rows metrics = for_items (spec_item (rules_of kind)) rows metrics \<and>
   (first_match (rules_of kind) (py_lower label) = Some key \<longrightarrow>
      (\<exists>x. safe_float cell = Inr x \<and>
           item_of kind (label # c1 # cell # rest) metrics = Inr (AList.update key x metrics))) \<and>
   (first_match (rules_of kind) (py_lower label) = None \<longrightarrow>
      item_of kind (label # rest) metrics = Inr metrics) \<and>
   item_of kind [''Footnote 3''] metrics = Inr metrics"
proof (intro conjI impI)
  show "item_of kind item metrics = spec_item (rules_of kind) item metrics"
    by (rule item_of_spec)
  show "for_items (item_of kind) rows metrics
      = for_items (spec_item (rules_of kind)) rows metrics"
    by (simp only: item_of_fun)
  show "\<exists>x. safe_float cell = Inr x \<and>
          item_of kind (label # c1 # cell # rest) metrics = Inr (AList.update key x metrics)"
    if "first_match (rules_of kind) (py_lower label) = Some key"
    using that by (intro spec_item_match) (simp add: row_key_def)
  show "item_of kind (label # rest) metrics = Inr metrics"
    if "first_match (rules_of kind) (py_lower label) = None"
    using that by (intro spec_item_no_match) (simp add: row_key_def)
  have "row_key kind [''Footnote 3''] = None"
    by (cases kind) (simp_all add: table_defs lower_defs)
  then show "item_of kind [''Footnote 3''] metrics = Inr metrics"
    by (rule spec_item_no_match)
qed

theorem first_matching_rule_wins_witness:
  "first_match (rules_of BalanceSheet) (py_lower ''Total Current Assets'') = Some ''current_assets''
   \<and> item_of BalanceSheet [''Total Current Assets'', ''note'', ''1,500''] [(''goodwill'', None)]
       = Inr [(''goodwill'', None), (''current_assets'', Some (Finite 1500))]
   \<and> first_match (rules_of CashFlow) (py_lower ''Total Current Assets'') = None
   \<and> item_of CashFlow [''Total Current Assets'', ''note'', ''1,500''] [(''goodwill'', None)]
       = Inr [(''goodwill'', None)]"
proof -
  have a: "first_match (rules_of BalanceSheet) (py_lower ''Total Current Assets'')
      = Some ''current_assets''"
    by (simp add: table_defs lower_defs)
  have b: "first_match (rules_of CashFlow) (py_lower ''Total Current Assets'') = None"
    by (simp add: table_defs lower_defs)
  have c: "safe_float ''1,500'' = Inr (Some (Finite 1500))"
    by (simp add: safe_float_def float_defs)
  from first_matching_rule_wins
    [of BalanceSheet "[]" "[(''goodwill'', None)]" "[]" "''Total Current Assets''"
      "''current_assets''" "''1,500''" "''note''" "[]"]
    first_matching_rule_wins
    [of CashFlow "[]" "[(''goodwill'', None)]" "[]" "''Total Current Assets''"
      "''current_assets''" "''1,500''" "''note''" "[''note'', ''1,500'']"]
    a b c
  show ?thesis by simp
qed

end
